theory Spec2Isabelle
  imports Main
begin

section \<open>The keyword base class of Dissolve (src/keywords/base.h)\<close>

text \<open>
  The header declares the class \<open>KeywordBase\<close>: its enumerations, its data members, the
  signatures of its member functions and, inline, the static template
  \<open>objectNoLongerValid\<close>. The bodies of the other member functions and every
  concrete keyword class live elsewhere. The embedding keeps that split: what the header
  fixes is a definition here; a virtual member function is a field of a record of
  functions (the class's table of virtuals) that the theorems take as a parameter.
\<close>

subsection \<open>Enumerations\<close>

datatype KeywordDataType =
    AtomTypeRefListData | AtomTypeSelectionData | BoolData | ConfigurationVectorData
  | Data1DStoreData | Data2DStoreData | Data3DStoreData | DoubleData | DynamicSiteNodesData
  | ElementVectorData | EnumOptionsData | ExpressionData | ExpressionVariableVectorData
  | FileAndFormatData | Function1DData | GeometryListData | IntegerData
  | IsotopologueListData | IsotopologueSetData | LinkToKeywordData | ModuleData
  | ModuleGroupsData | ModuleRefListData | NodeData | NodeAndIntegerData | NodeBranchData
  | NodeValueData | NodeValueEnumOptionsData | NodeVectorData | ProcedureData | RangeData
  | SpeciesData | SpeciesSiteData | SpeciesSiteVectorData | SpeciesVectorData | StringData
  | ValueStoreData | Vec3DoubleData | Vec3IntegerData | Vec3NodeValueData
  | VectorIntegerDoubleData | VectorIntegerStringData | VectorStringPairData

datatype KeywordOption = NoOptions | InRestartFileOption | ModificationRequiresSetUpOption

fun KeywordOption_value :: "KeywordOption \<Rightarrow> int" where
  "KeywordOption_value NoOptions = 0"
| "KeywordOption_value InRestartFileOption = 1"
| "KeywordOption_value ModificationRequiresSetUpOption = 2"

text \<open>
  \<open>enum ParseResult { Unrecognised = -1, Failed = 0, Success = 1 }\<close>: an unscoped
  enumeration, so each enumerator is an integer value and converts implicitly to
  \<open>bool\<close> the way an integer does (zero is \<open>false\<close>, everything else \<open>true\<close>).
\<close>

datatype ParseResult = Unrecognised | Failed | Success

fun ParseResult_value :: "ParseResult \<Rightarrow> int" where
  "ParseResult_value Unrecognised = - 1"
| "ParseResult_value Failed = 0"
| "ParseResult_value Success = 1"

definition int_as_bool :: "int \<Rightarrow> bool" where
  "int_as_bool i = (i \<noteq> 0)"

definition ParseResult_as_bool :: "ParseResult \<Rightarrow> bool" where
  "ParseResult_as_bool r = int_as_bool (ParseResult_value r)"

subsection \<open>Domain objects and how they are handed over\<close>

text \<open>
  The seven forward-declared domain classes a keyword may refer to. An object is known to
  a keyword by its class and its address only; the keyword never owns it.
\<close>

datatype DomainClass =
  AtomType | Configuration | Isotopologue | Module | Species | SpeciesSite | ProcedureNode

datatype Object = Object DomainClass nat

text \<open>
  The overload set of \<open>removeReferencesTo\<close> (lines 190--203): the overload for
  \<open>AtomType\<close> takes a \<open>std::shared_ptr<AtomType>\<close>, the six others take a raw pointer.
\<close>

datatype Handle = RawPtr | SharedPtr

fun removeReferencesTo_param :: "DomainClass \<Rightarrow> Handle" where
  "removeReferencesTo_param AtomType = SharedPtr"
| "removeReferencesTo_param Configuration = RawPtr"
| "removeReferencesTo_param Isotopologue = RawPtr"
| "removeReferencesTo_param Module = RawPtr"
| "removeReferencesTo_param Species = RawPtr"
| "removeReferencesTo_param SpeciesSite = RawPtr"
| "removeReferencesTo_param ProcedureNode = RawPtr"

subsection \<open>The keyword object and its virtual member functions\<close>

text \<open>
  The data members of \<open>KeywordBase\<close> (lines 98--112). A concrete keyword class adds the
  data it contains; \<open>data_'\<close> stands for it, of a type \<open>'d\<close> the base class knows
  nothing about. A name cannot end in an underscore here, so each member carries a prime.
\<close>

record 'd Keyword =
  type_' :: KeywordDataType
  name_' :: string
  arguments_' :: string
  description_' :: string
  optionMask_' :: int
  set_' :: bool
  data_' :: 'd

text \<open>
  The virtual member functions the claims are about, with the types the header gives
  them. \<open>LineParser\<close> and \<open>CoreData\<close> are forward declarations in the header: the
  type parameters \<open>'p\<close> and \<open>'c\<close>. A member function that may change its object
  returns the object. \<open>read\<close> is declared to return \<open>bool\<close> (line 149). The seven
  overloads of \<open>removeReferencesTo\<close> are one function here, on an object tagged with
  its class. A value of this record is the dynamic dispatch of a whole family of keyword
  classes: each function looks at the keyword it is given.
\<close>

record ('d, 'p, 'c) KeywordClass =
  isDataEmpty :: "'d Keyword \<Rightarrow> bool"
  read :: "'p \<Rightarrow> int \<Rightarrow> 'c \<Rightarrow> 'd Keyword \<Rightarrow> bool \<times> 'd Keyword"
  removeReferencesTo :: "Object \<Rightarrow> 'd Keyword \<Rightarrow> 'd Keyword"

subsection \<open>The list of all keywords and the pruning broadcast\<close>

text \<open>
  \<open>static RefList<KeywordBase> allKeywords_\<close> (line 187) holds pointers. The state of the
  process, as far as keywords go, is that list of addresses, in order, and the keyword
  objects alive at their addresses.
\<close>

record 'd World =
  allKeywords_' :: "nat list"
  heap :: "nat \<rightharpoonup> 'd Keyword"

datatype Failure = NoMatchingOverload | DanglingKeyword

text \<open>
  The loop of \<open>objectNoLongerValid\<close> (lines 210--211):
  \<^verbatim>\<open>for (auto kwd : allKeywords_) kwd->removeReferencesTo(object);\<close>
  Each pointer of the list is dereferenced in turn and the virtual function runs on the
  object found there. A pointer to no live object cannot be followed.
\<close>

fun removeReferencesToEach ::
  "('d, 'p, 'c) KeywordClass \<Rightarrow> Object \<Rightarrow> nat list \<Rightarrow> (nat \<rightharpoonup> 'd Keyword)
    \<Rightarrow> Failure + (nat \<rightharpoonup> 'd Keyword)" where
  "removeReferencesToEach vt object [] h = Inr h"
| "removeReferencesToEach vt object (kwd # rest) h =
     (case h kwd of
        None \<Rightarrow> Inl DanglingKeyword
      | Some k \<Rightarrow> removeReferencesToEach vt object rest (h(kwd \<mapsto> removeReferencesTo vt object k)))"

text \<open>
  \<^verbatim>\<open>template <class O> static void objectNoLongerValid(O *object)\<close> (line 207). The
  argument of the call \<open>kwd->removeReferencesTo(object)\<close> is a raw pointer \<open>O *\<close>
  whatever \<open>O\<close> is. Raw pointers to unrelated classes do not convert into each other, and
  a raw pointer does not convert implicitly to a \<open>std::shared_ptr\<close> (that constructor is
  explicit), so the call selects the overload for \<open>O\<close> when that overload takes a raw
  pointer and has no overload to select otherwise: the instantiation is then ill-formed,
  and no program contains the call.
\<close>

definition objectNoLongerValid ::
  "('d, 'p, 'c) KeywordClass \<Rightarrow> DomainClass \<Rightarrow> nat \<Rightarrow> 'd World \<Rightarrow> Failure + 'd World" where
  "objectNoLongerValid vt c object w =
     (if removeReferencesTo_param c = RawPtr
      then (case removeReferencesToEach vt (Object c object) (allKeywords_' w) (heap w) of
              Inl e \<Rightarrow> Inl e
            | Inr h \<Rightarrow> Inr (w\<lparr>heap := h\<rparr>))
      else Inl NoMatchingOverload)"

text \<open>
  The same loop with nothing taken for granted about the virtual function.
  \<open>removeReferencesTo\<close> is a non-const member function, so running it on one keyword
  may in principle change anything of the process, the list of all keywords included (an
  override cannot name the private \<open>allKeywords_\<close>, but it could construct or destroy a
  keyword). \<open>handler object kwd w\<close> is the process after
  \<open>kwd->removeReferencesTo(object)\<close> has run in the process \<open>w\<close>. The loop walks the
  list as it found it; what it would visit after a handler that changed the list itself
  depends on \<open>RefList\<close>, which the header does not give, so this form of the loop is
  used only under the hypothesis that a handler leaves the list alone.
\<close>

fun removeReferencesToEachP ::
  "(Object \<Rightarrow> nat \<Rightarrow> 'd World \<Rightarrow> 'd World) \<Rightarrow> Object \<Rightarrow> nat list \<Rightarrow> 'd World
    \<Rightarrow> Failure + 'd World" where
  "removeReferencesToEachP handler object [] w = Inr w"
| "removeReferencesToEachP handler object (kwd # rest) w =
     (case heap w kwd of
        None \<Rightarrow> Inl DanglingKeyword
      | Some _ \<Rightarrow> removeReferencesToEachP handler object rest (handler object kwd w))"

definition objectNoLongerValidP ::
  "(Object \<Rightarrow> nat \<Rightarrow> 'd World \<Rightarrow> 'd World) \<Rightarrow> DomainClass \<Rightarrow> nat \<Rightarrow> 'd World
    \<Rightarrow> Failure + 'd World" where
  "objectNoLongerValidP handler c object w =
     (if removeReferencesTo_param c = RawPtr
      then removeReferencesToEachP handler (Object c object) (allKeywords_' w) w
      else Inl NoMatchingOverload)"

text \<open>
  A member function that changes nothing but its own object, run through a pointer to a
  keyword of the process.
\<close>

definition memberCall :: "('d Keyword \<Rightarrow> 'd Keyword) \<Rightarrow> nat \<Rightarrow> 'd World \<Rightarrow> 'd World" where
  "memberCall f this w =
     (case heap w this of None \<Rightarrow> w | Some k \<Rightarrow> w\<lparr>heap := (heap w)(this \<mapsto> f k)\<rparr>)"

subsection \<open>Member functions whose bodies the header does not give\<close>

text \<open>
  Modelled from the spec: the constructor \<open>KeywordBase(KeywordDataType)\<close>, whose body
  is not in the header, as far as the object itself goes. The spec (Data model): the kind
  is chosen at construction, and \<open>hasBeenSet\<close> is false until the keyword is parsed or
  marked modified. The metadata are filled in later by \<open>set\<close>; that they start empty is
  a choice made here, which no theorem rests on.
\<close>

definition KeywordBase :: "KeywordDataType \<Rightarrow> 'd \<Rightarrow> 'd Keyword" where
  "KeywordBase t d =
     \<lparr>type_' = t, name_' = [], arguments_' = [], description_' = [],
      optionMask_' = KeywordOption_value NoOptions, set_' = False, data_' = d\<rparr>"

text \<open>
  Modelled from the spec: what constructing a keyword does to the process; the
  constructor's body is not in the header. The spec (Data model, Lifecycle): a variant
  registers itself into the registry at construction, an insert into an insertion-ordered
  collection. A new object takes storage that no live object occupies.
\<close>

definition construct :: "nat \<Rightarrow> KeywordDataType \<Rightarrow> 'd \<Rightarrow> 'd World \<Rightarrow> 'd World option" where
  "construct this t d w =
     (case heap w this of
        Some _ \<Rightarrow> None
      | None \<Rightarrow> Some (w\<lparr>allKeywords_' := allKeywords_' w @ [this],
                        heap := (heap w)(this \<mapsto> KeywordBase t d)\<rparr>))"

text \<open>
  Modelled from the spec: the destructor \<open>~KeywordBase()\<close>, whose body is not in the
  header. The spec (Data model, Lifecycle): a variant deregisters from the registry when
  it is destroyed, a remove of its entry. Only a live object is destroyed.
\<close>

definition destroy :: "nat \<Rightarrow> 'd World \<Rightarrow> 'd World option" where
  "destroy this w =
     (case heap w this of
        None \<Rightarrow> None
      | Some _ \<Rightarrow> Some (w\<lparr>allKeywords_' := remove1 this (allKeywords_' w),
                          heap := (heap w)(this := None)\<rparr>))"

text \<open>
  Modelled from the spec: \<open>set\<close> (here \<open>set'\<close>), whose body is not in the header. The
  spec (Keyword Descriptor): \<open>configure(name, description, argumentsHint, optionMask)\<close>
  overwrites the metadata. The header's comment (line 115): set name, description,
  arguments, and option mask.
\<close>

definition set' :: "string \<Rightarrow> string \<Rightarrow> string \<Rightarrow> int \<Rightarrow> 'd Keyword \<Rightarrow> 'd Keyword" where
  "set' name description arguments optionMask k =
     k\<lparr>name_' := name, arguments_' := arguments, description_' := description,
       optionMask_' := optionMask\<rparr>"

text \<open>
  Modelled from the spec: \<open>setAsModified\<close>, whose body is not in the header. The spec
  (Keyword Descriptor): \<open>markModified()\<close> sets \<open>hasBeenSet = true\<close> without going
  through parse. The header's comment (line 117): flag that data has been set by some
  other means.
\<close>

definition setAsModified :: "'d Keyword \<Rightarrow> 'd Keyword" where
  "setAsModified k = k\<lparr>set_' := True\<rparr>"

text \<open>
  Modelled from the spec: \<open>hasBeenSet\<close>, whose body is not in the header. The spec
  (Keyword Descriptor): true only if set and, if the variant reports itself empty, not
  currently empty. The header's comment (line 135): return whether the keyword has been
  set, and is not currently empty (if relevant).
\<close>

definition hasBeenSet :: "('d, 'p, 'c) KeywordClass \<Rightarrow> 'd Keyword \<Rightarrow> bool" where
  "hasBeenSet vt k = (if set_' k then \<not> isDataEmpty vt k else False)"

subsection \<open>Runs of the process and of one keyword\<close>

text \<open>
  Modelled from the spec: what can happen to the keywords of a process. The spec
  (Lifecycle): a variant is created, mutated by parse operations or programmatic setters,
  and destroyed; the destruction of a domain entity triggers the pruning. An event that
  cannot happen (constructing over a live object, touching a dead one, an ill-formed call)
  ends the run with \<open>None\<close>.
\<close>

datatype 'd Event =
    Construct nat KeywordDataType 'd
  | Destroy nat
  | ObjectNoLongerValid DomainClass nat
  | Member nat "'d Keyword \<Rightarrow> 'd Keyword"

fun step :: "('d, 'p, 'c) KeywordClass \<Rightarrow> 'd Event \<Rightarrow> 'd World \<Rightarrow> 'd World option" where
  "step vt (Construct this t d) w = construct this t d w"
| "step vt (Destroy this) w = destroy this w"
| "step vt (ObjectNoLongerValid c object) w =
     (case objectNoLongerValid vt c object w of Inl _ \<Rightarrow> None | Inr w' \<Rightarrow> Some w')"
| "step vt (Member this f) w =
     (case heap w this of
        None \<Rightarrow> None
      | Some k \<Rightarrow> Some (w\<lparr>heap := (heap w)(this \<mapsto> f k)\<rparr>))"

fun run :: "('d, 'p, 'c) KeywordClass \<Rightarrow> 'd Event list \<Rightarrow> 'd World \<Rightarrow> 'd World option" where
  "run vt [] w = Some w"
| "run vt (e # es) w = (case step vt e w of None \<Rightarrow> None | Some w' \<Rightarrow> run vt es w')"

definition startup :: "'d World" where
  "startup = \<lparr>allKeywords_' = [], heap = Map.empty\<rparr>"

definition registry_complete :: "'d World \<Rightarrow> bool" where
  "registry_complete w = (distinct (allKeywords_' w) \<and> set (allKeywords_' w) = dom (heap w))"

text \<open>
  Modelled from the spec: the calls one keyword receives during its life, and whether any
  of them set its value. The spec (Data model): \<open>hasBeenSet\<close> is false until the
  keyword is either parsed, by a \<open>read\<close> that succeeded, or explicitly marked
  modified.
\<close>

datatype ('p, 'c) Call =
    Read 'p int 'c
  | SetAsModified
  | Set string string string int
  | RemoveReferencesTo Object

fun call :: "('d, 'p, 'c) KeywordClass \<Rightarrow> ('p, 'c) Call \<Rightarrow> 'd Keyword \<Rightarrow> 'd Keyword \<times> bool" where
  "call vt (Read parser startArg coreData) k =
     (snd (read vt parser startArg coreData k), fst (read vt parser startArg coreData k))"
| "call vt SetAsModified k = (setAsModified k, True)"
| "call vt (Set name description arguments optionMask) k =
     (set' name description arguments optionMask k, False)"
| "call vt (RemoveReferencesTo object) k = (removeReferencesTo vt object k, False)"

fun calls :: "('d, 'p, 'c) KeywordClass \<Rightarrow> ('p, 'c) Call list \<Rightarrow> 'd Keyword \<Rightarrow> 'd Keyword \<times> bool" where
  "calls vt [] k = (k, False)"
| "calls vt (c # cs) k =
     (case call vt c k of (k', b) \<Rightarrow> (case calls vt cs k' of (k'', b') \<Rightarrow> (k'', b \<or> b')))"

subsection \<open>A small family of keyword classes\<close>

text \<open>
  Modelled from the spec: the data of three representative keyword classes, none of which
  is in the header, to run the interface on. The spec (Data model): the value of a
  variant ranges from a single scalar to a reference to a domain entity, held by pointer
  and not owned, to a sequence of such references.
\<close>

datatype ExampleData = Flag bool | Pointer "Object option" | PointerList "Object list"

text \<open>
  Modelled from the spec: \<open>isDataEmpty\<close> of the three classes. The spec (Typed Keyword
  Variant): empty list or unset reference; false by default, a scalar never being empty.
\<close>

definition example_isDataEmpty :: "ExampleData Keyword \<Rightarrow> bool" where
  "example_isDataEmpty k =
     (case data_' k of Flag _ \<Rightarrow> False | Pointer p \<Rightarrow> p = None | PointerList ps \<Rightarrow> ps = [])"

text \<open>
  Modelled from the spec: \<open>removeReferencesTo\<close> of the three classes. The spec
  (Reference-Pruning Protocol): the reference is set to null or erased from the list; a
  variant that cannot reference the object does nothing, which is the default.
\<close>

definition example_removeReferencesTo :: "Object \<Rightarrow> ExampleData Keyword \<Rightarrow> ExampleData Keyword" where
  "example_removeReferencesTo object k =
     (case data_' k of
        Flag _ \<Rightarrow> k
      | Pointer p \<Rightarrow> if p = Some object then k\<lparr>data_' := Pointer None\<rparr> else k
      | PointerList ps \<Rightarrow> k\<lparr>data_' := PointerList (removeAll object ps)\<rparr>)"

text \<open>
  Modelled from the spec: the domain objects a keyword of the three classes holds a
  reference to. The spec (Data model): a variant holds a non-owning link to the entity.
\<close>

definition example_references :: "ExampleData Keyword \<Rightarrow> Object set" where
  "example_references k =
     (case data_' k of Flag _ \<Rightarrow> {} | Pointer p \<Rightarrow> set_option p | PointerList ps \<Rightarrow> set ps)"

text \<open>
  Modelled from the spec: the domain registry, a list of named objects here. The spec
  (External interfaces): given a name it resolves to a live domain object, or finds no
  match.
\<close>

fun resolve :: "(string \<times> Object) list \<Rightarrow> string list \<Rightarrow> Object list option" where
  "resolve coreData [] = Some []"
| "resolve coreData (a # as) =
     (case map_of coreData a of
        None \<Rightarrow> None
      | Some x \<Rightarrow> (case resolve coreData as of None \<Rightarrow> None | Some xs \<Rightarrow> Some (x # xs)))"

text \<open>
  Modelled from the spec: the arguments each of the three classes accepts. The spec (Typed
  Keyword Variant, External interfaces): malformed arguments, a wrong count or a name the
  domain registry does not resolve give no value. The spelling of a flag is a choice made
  here.
\<close>

definition example_parse ::
  "(string \<times> Object) list \<Rightarrow> ExampleData \<Rightarrow> string list \<Rightarrow> ExampleData option" where
  "example_parse coreData d args =
     (case d of
        Flag _ \<Rightarrow>
          (if args = [''True''] then Some (Flag True)
           else if args = [''False''] then Some (Flag False) else None)
      | Pointer _ \<Rightarrow>
          (case args of
             [a] \<Rightarrow> (case map_of coreData a of None \<Rightarrow> None | Some x \<Rightarrow> Some (Pointer (Some x)))
           | _ \<Rightarrow> None)
      | PointerList _ \<Rightarrow>
          (if args = [] then None
           else case resolve coreData args of None \<Rightarrow> None | Some xs \<Rightarrow> Some (PointerList xs)))"

text \<open>
  Modelled from the spec: \<open>read\<close> of the three classes, on the list of the arguments of
  the line. The spec (Typed Keyword Variant): tokens are consumed from the start index;
  success commits the parsed value and sets \<open>hasBeenSet\<close>; on failure the variant is
  left as it was.
\<close>

definition example_read ::
  "string list \<Rightarrow> int \<Rightarrow> (string \<times> Object) list \<Rightarrow> ExampleData Keyword
    \<Rightarrow> bool \<times> ExampleData Keyword" where
  "example_read parser startArg coreData k =
     (if startArg < 0 then (False, k)
      else case example_parse coreData (data_' k) (drop (nat startArg) parser) of
             None \<Rightarrow> (False, k)
           | Some d \<Rightarrow> (True, k\<lparr>data_' := d, set_' := True\<rparr>))"

text \<open>Modelled from the spec: the virtual member functions of the three classes together.\<close>

definition exampleClass :: "(ExampleData, string list, (string \<times> Object) list) KeywordClass" where
  "exampleClass =
     \<lparr>isDataEmpty = example_isDataEmpty, read = example_read,
      removeReferencesTo = example_removeReferencesTo\<rparr>"

text \<open>
  The example of the spec's testable properties: a Module-reference keyword holding
  module \<open>M1\<close>, here next to a list keyword and a scalar one; and, apart, a list keyword
  holding an atom type.
\<close>

definition M1 :: Object where "M1 = Object Module 10"
definition M2 :: Object where "M2 = Object Module 11"
definition A1 :: Object where "A1 = Object AtomType 30"

definition moduleKeyword :: "ExampleData Keyword" where
  "moduleKeyword = (KeywordBase ModuleData (Pointer (Some M1)))\<lparr>set_' := True\<rparr>"

definition listKeyword :: "ExampleData Keyword" where
  "listKeyword = (KeywordBase ModuleRefListData (PointerList [M2, M1]))\<lparr>set_' := True\<rparr>"

definition flagKeyword :: "ExampleData Keyword" where
  "flagKeyword = KeywordBase BoolData (Flag False)"

definition atomTypeKeyword :: "ExampleData Keyword" where
  "atomTypeKeyword = (KeywordBase AtomTypeRefListData (PointerList [A1]))\<lparr>set_' := True\<rparr>"

definition exampleWorld :: "ExampleData World" where
  "exampleWorld =
     \<lparr>allKeywords_' = [1, 2, 3],
      heap = [1 \<mapsto> moduleKeyword, 2 \<mapsto> listKeyword, 3 \<mapsto> flagKeyword]\<rparr>"

definition atomTypeWorld :: "ExampleData World" where
  "atomTypeWorld = \<lparr>allKeywords_' = [1], heap = [1 \<mapsto> atomTypeKeyword]\<rparr>"

section \<open>The parse result and what read returns\<close>

text \<open>
  C9. The enumeration assigns \<open>Unrecognised = -1\<close>, \<open>Failed = 0\<close>, \<open>Success = 1\<close>.
  Converted to \<open>bool\<close>, the type \<open>read\<close> is declared to return, a result is
  \<open>false\<close> exactly when it is \<open>Failed\<close>, and \<open>Unrecognised\<close> and \<open>Success\<close> are
  the same boolean.
\<close>

theorem ParseResult_values_and_bool:
  "ParseResult_value Unrecognised = - 1 \<and> ParseResult_value Failed = 0
   \<and> ParseResult_value Success = 1
   \<and> (\<not> ParseResult_as_bool r) = (r = Failed)
   \<and> ParseResult_as_bool Unrecognised = ParseResult_as_bool Success"
  by (cases r) (simp_all add: ParseResult_as_bool_def int_as_bool_def)

text \<open>
  C7 (as amended). \<open>read\<close> is declared \<open>virtual bool read(...)\<close>: it returns a
  \<open>bool\<close>, not a \<open>ParseResult\<close>. Its return value therefore tells at most two
  outcomes apart: however a caller reads the returned boolean back as one of
  \<open>Unrecognised\<close>, \<open>Failed\<close>, \<open>Success\<close>, for every keyword class one of the three
  is never reported, on any input.
\<close>

theorem read_return_value_misses_an_outcome:
  fixes decode :: "bool \<Rightarrow> ParseResult"
  shows "\<exists>r. \<forall>parser startArg coreData k.
           decode (fst (read vt parser startArg coreData k)) \<noteq> r"
proof -
  obtain r where r: "r \<noteq> decode True" "r \<noteq> decode False"
    by (cases "decode True"; cases "decode False") auto
  have "decode b \<noteq> r" for b
    using r by (cases b) auto
  then show ?thesis by blast
qed

text \<open>
  The claim as stated, that the return value of \<open>read\<close> distinguishes the three
  outcomes, fails: \<open>Unrecognised\<close> and \<open>Success\<close> are different outcomes that arrive as
  the same value of the declared return type.
\<close>

theorem read_return_value_counterexample:
  "Unrecognised \<noteq> Success \<and> ParseResult_as_bool Unrecognised = ParseResult_as_bool Success"
  by (simp add: ParseResult_as_bool_def int_as_bool_def)

section \<open>The pruning broadcast\<close>

subsection \<open>The loop over all keywords\<close>

text \<open>The loop neither adds nor removes a keyword object.\<close>

lemma removeReferencesToEach_dom:
  "removeReferencesToEach vt x ks h = Inr h' \<Longrightarrow> dom h' = dom h"
proof (induction ks arbitrary: h)
  case Nil
  then show ?case by simp
next
  case (Cons kwd rest)
  then obtain k where k: "h kwd = Some k"
    by (cases "h kwd") auto
  with Cons.prems have "removeReferencesToEach vt x rest (h(kwd \<mapsto> removeReferencesTo vt x k)) = Inr h'"
    by simp
  then have "dom h' = dom (h(kwd \<mapsto> removeReferencesTo vt x k))"
    by (rule Cons.IH)
  with k show ?case by auto
qed

text \<open>The loop runs to its end when every pointer of the list leads to a live keyword.\<close>

lemma removeReferencesToEach_total:
  "set ks \<subseteq> dom h \<Longrightarrow> \<exists>h'. removeReferencesToEach vt x ks h = Inr h'"
proof (induction ks arbitrary: h)
  case Nil
  then show ?case by simp
next
  case (Cons kwd rest)
  from Cons.prems obtain k where k: "h kwd = Some k" by auto
  from Cons.prems have "set rest \<subseteq> dom (h(kwd \<mapsto> removeReferencesTo vt x k))" by auto
  then have "\<exists>h'. removeReferencesToEach vt x rest (h(kwd \<mapsto> removeReferencesTo vt x k)) = Inr h'"
    by (rule Cons.IH)
  with k show ?case by simp
qed

text \<open>
  Over a list without repetition, the loop calls the virtual function once on each listed
  keyword and touches no other.
\<close>

lemma removeReferencesToEach_result:
  "distinct ks \<Longrightarrow> set ks \<subseteq> dom h \<Longrightarrow>
   removeReferencesToEach vt x ks h =
     Inr (\<lambda>a. if a \<in> set ks then map_option (removeReferencesTo vt x) (h a) else h a)"
proof (induction ks arbitrary: h)
  case Nil
  then show ?case by simp
next
  case (Cons kwd rest)
  from Cons.prems obtain k where k: "h kwd = Some k" by auto
  let ?h1 = "h(kwd \<mapsto> removeReferencesTo vt x k)"
  from Cons.prems have d: "distinct rest" and n: "kwd \<notin> set rest" and s: "set rest \<subseteq> dom ?h1"
    by auto
  have "removeReferencesToEach vt x rest ?h1 =
      Inr (\<lambda>a. if a \<in> set rest then map_option (removeReferencesTo vt x) (?h1 a) else ?h1 a)"
    using d s by (rule Cons.IH)
  moreover have "(\<lambda>a. if a \<in> set rest then map_option (removeReferencesTo vt x) (?h1 a) else ?h1 a)
      = (\<lambda>a. if a \<in> set (kwd # rest) then map_option (removeReferencesTo vt x) (h a) else h a)"
    using n k by (auto simp: fun_eq_iff)
  ultimately show ?case using k by simp
qed

lemma objectNoLongerValid_frame:
  assumes "objectNoLongerValid vt c a w = Inr w'"
  shows "allKeywords_' w' = allKeywords_' w \<and> dom (heap w') = dom (heap w)"
proof -
  from assms obtain h where h: "removeReferencesToEach vt (Object c a) (allKeywords_' w) (heap w) = Inr h"
    and w': "w' = w\<lparr>heap := h\<rparr>"
    by (auto simp: objectNoLongerValid_def split: if_splits sum.splits)
  from h have "dom h = dom (heap w)" by (rule removeReferencesToEach_dom)
  with w' show ?thesis by simp
qed

lemma objectNoLongerValid_total:
  assumes "c \<noteq> AtomType" and "set (allKeywords_' w) \<subseteq> dom (heap w)"
  shows "\<exists>w'. objectNoLongerValid vt c a w = Inr w'"
proof -
  from assms(1) have raw: "removeReferencesTo_param c = RawPtr" by (cases c) simp_all
  from assms(2) obtain h where "removeReferencesToEach vt (Object c a) (allKeywords_' w) (heap w) = Inr h"
    using removeReferencesToEach_total by blast
  with raw show ?thesis by (simp add: objectNoLongerValid_def)
qed

lemma registry_complete_exampleWorld: "registry_complete exampleWorld"
  by (auto simp: registry_complete_def exampleWorld_def)

text \<open>
  However often a keyword is listed, the loop leaves it as \<open>removeReferencesTo\<close> made
  it, applied once for each time it is listed, and leaves every other keyword as it was.
\<close>

lemma removeReferencesToEach_count:
  "removeReferencesToEach vt x ks h = Inr h' \<Longrightarrow>
   h' b = map_option (removeReferencesTo vt x ^^ count_list ks b) (h b)"
proof (induction ks arbitrary: h)
  case Nil
  then show ?case by (simp add: option.map_ident)
next
  case (Cons kwd rest)
  from Cons.prems obtain k where k: "h kwd = Some k"
    by (cases "h kwd") auto
  let ?h1 = "h(kwd \<mapsto> removeReferencesTo vt x k)"
  from Cons.prems k have "removeReferencesToEach vt x rest ?h1 = Inr h'" by simp
  then have ih: "h' b = map_option (removeReferencesTo vt x ^^ count_list rest b) (?h1 b)"
    by (rule Cons.IH)
  show ?case
  proof (cases "b = kwd")
    case True
    with ih k show ?thesis by (simp add: funpow_swap1)
  next
    case False
    with ih show ?thesis by simp
  qed
qed

lemma objectNoLongerValid_count:
  assumes "objectNoLongerValid vt c a w = Inr w'"
  shows "heap w' b = map_option (removeReferencesTo vt (Object c a) ^^ count_list (allKeywords_' w) b) (heap w b)"
proof -
  from assms obtain h where h: "removeReferencesToEach vt (Object c a) (allKeywords_' w) (heap w) = Inr h"
    and w': "w' = w\<lparr>heap := h\<rparr>"
    by (auto simp: objectNoLongerValid_def split: if_splits sum.splits)
  from h have "h b = map_option (removeReferencesTo vt (Object c a) ^^ count_list (allKeywords_' w) b) (heap w b)"
    by (rule removeReferencesToEach_count)
  with w' show ?thesis by simp
qed

text \<open>A function that changes only the contained data still does so when repeated.\<close>

lemma funpow_data_only:
  assumes "\<forall>k. f k = k\<lparr>data_' := data_' (f k)\<rparr>"
  shows "(f ^^ n) k = k\<lparr>data_' := data_' ((f ^^ n) k)\<rparr>"
proof (induction n)
  case 0
  show ?case by simp
next
  case (Suc n)
  from assms have "f ((f ^^ n) k) = ((f ^^ n) k)\<lparr>data_' := data_' (f ((f ^^ n) k))\<rparr>"
    by blast
  also have "\<dots> = (k\<lparr>data_' := data_' ((f ^^ n) k)\<rparr>)\<lparr>data_' := data_' (f ((f ^^ n) k))\<rparr>"
    using Suc.IH by simp
  finally show ?case by simp
qed

text \<open>
  When each handler does nothing but run the class's \<open>removeReferencesTo\<close> on its own
  keyword, the loop over the process is the loop over the keywords.
\<close>

lemma removeReferencesToEachP_own:
  fixes vt :: "('d, 'p, 'c) KeywordClass" and handler :: "Object \<Rightarrow> nat \<Rightarrow> 'd World \<Rightarrow> 'd World"
  assumes own: "\<forall>x this w k. heap w this = Some k \<longrightarrow>
      handler x this w = w\<lparr>heap := (heap w)(this \<mapsto> removeReferencesTo vt x k)\<rparr>"
  shows "removeReferencesToEachP handler x ks w =
     (case removeReferencesToEach vt x ks (heap w) of
        Inl e \<Rightarrow> Inl e | Inr h \<Rightarrow> Inr (w\<lparr>heap := h\<rparr>))"
proof (induction ks arbitrary: w)
  case Nil
  show ?case by simp
next
  case (Cons kwd rest)
  show ?case
  proof (cases "heap w kwd")
    case None
    then show ?thesis by simp
  next
    case (Some k)
    let ?w1 = "w\<lparr>heap := (heap w)(kwd \<mapsto> removeReferencesTo vt x k)\<rparr>"
    from own Some have c: "handler x kwd w = ?w1" by blast
    have "removeReferencesToEachP handler x rest ?w1 =
       (case removeReferencesToEach vt x rest (heap ?w1) of
          Inl e \<Rightarrow> Inl e | Inr h \<Rightarrow> Inr (?w1\<lparr>heap := h\<rparr>))"
      by (rule Cons.IH)
    with Some c show ?thesis by (simp split: sum.splits)
  qed
qed

lemma objectNoLongerValidP_own:
  fixes vt :: "('d, 'p, 'c) KeywordClass" and handler :: "Object \<Rightarrow> nat \<Rightarrow> 'd World \<Rightarrow> 'd World"
  assumes "\<forall>x this w k. heap w this = Some k \<longrightarrow>
      handler x this w = w\<lparr>heap := (heap w)(this \<mapsto> removeReferencesTo vt x k)\<rparr>"
  shows "objectNoLongerValidP handler c a w = objectNoLongerValid vt c a w"
  by (simp add: objectNoLongerValidP_def objectNoLongerValid_def
      removeReferencesToEachP_own [OF assms])

text \<open>The three example classes change only the contained data.\<close>

lemma example_data_only:
  "example_removeReferencesTo x k = k\<lparr>data_' := data_' (example_removeReferencesTo x k)\<rparr>"
  by (simp add: example_removeReferencesTo_def split: ExampleData.splits)

text \<open>
  C10. For every object, \<open>objectNoLongerValid\<close> changes neither the membership nor the
  order of the list of all keywords, and destroys no keyword: after the call the list is
  the one before it and the same keyword objects are alive. The broadcast changes keywords
  only through \<open>removeReferencesTo\<close> and only in their contained data: every keyword
  ends as \<open>removeReferencesTo\<close> left it, run once for each time the keyword is listed,
  a keyword that is not listed is untouched, and no member but the contained data differs
  from before. This rests on what the header's comments say of \<open>removeReferencesTo\<close>,
  taken here as hypotheses and not as a matter of types: a call changes nothing of the
  process but the keyword it runs on, and of that keyword nothing but the contained data.
  The call does complete for an object of each of the six classes handed over by raw
  pointer, when every listed pointer is live.
\<close>

theorem objectNoLongerValid_keeps_registry:
  fixes vt :: "('d, 'p, 'c) KeywordClass" and handler :: "Object \<Rightarrow> nat \<Rightarrow> 'd World \<Rightarrow> 'd World"
  assumes own: "\<forall>x this w k. heap w this = Some k \<longrightarrow>
      handler x this w = w\<lparr>heap := (heap w)(this \<mapsto> removeReferencesTo vt x k)\<rparr>"
    and data: "\<forall>x k. removeReferencesTo vt x k = k\<lparr>data_' := data_' (removeReferencesTo vt x k)\<rparr>"
  shows "objectNoLongerValidP handler c a w = objectNoLongerValid vt c a w
   \<and> (\<forall>w'. objectNoLongerValidP handler c a w = Inr w' \<longrightarrow>
       allKeywords_' w' = allKeywords_' w \<and> dom (heap w') = dom (heap w)
       \<and> (\<forall>b. heap w' b =
             map_option (removeReferencesTo vt (Object c a) ^^ count_list (allKeywords_' w) b)
               (heap w b))
       \<and> (\<forall>b k k'. heap w b = Some k \<and> heap w' b = Some k' \<longrightarrow> k' = k\<lparr>data_' := data_' k'\<rparr>))
   \<and> (c \<noteq> AtomType \<and> set (allKeywords_' w) \<subseteq> dom (heap w) \<longrightarrow>
       (\<exists>w'. objectNoLongerValidP handler c a w = Inr w'))"
proof -
  let ?f = "removeReferencesTo vt (Object c a)"
  have eq: "objectNoLongerValidP handler c a w = objectNoLongerValid vt c a w"
    using own by (rule objectNoLongerValidP_own)
  have frame: "allKeywords_' w' = allKeywords_' w \<and> dom (heap w') = dom (heap w)
       \<and> (\<forall>b. heap w' b = map_option (?f ^^ count_list (allKeywords_' w) b) (heap w b))
       \<and> (\<forall>b k k'. heap w b = Some k \<and> heap w' b = Some k' \<longrightarrow> k' = k\<lparr>data_' := data_' k'\<rparr>)"
    if run: "objectNoLongerValidP handler c a w = Inr w'" for w'
  proof -
    from run eq have r: "objectNoLongerValid vt c a w = Inr w'" by simp
    then have 1: "allKeywords_' w' = allKeywords_' w \<and> dom (heap w') = dom (heap w)"
      by (rule objectNoLongerValid_frame)
    have 2: "heap w' b = map_option (?f ^^ count_list (allKeywords_' w) b) (heap w b)" for b
      using r by (rule objectNoLongerValid_count)
    have 3: "k' = k\<lparr>data_' := data_' k'\<rparr>" if "heap w b = Some k \<and> heap w' b = Some k'" for b k k'
    proof -
      from that 2 [of b] have "k' = (?f ^^ count_list (allKeywords_' w) b) k" by auto
      moreover from data have "\<forall>k. ?f k = k\<lparr>data_' := data_' (?f k)\<rparr>" by blast
      then have "(?f ^^ count_list (allKeywords_' w) b) k
          = k\<lparr>data_' := data_' ((?f ^^ count_list (allKeywords_' w) b) k)\<rparr>"
        by (rule funpow_data_only)
      ultimately show ?thesis by simp
    qed
    from 1 2 3 show ?thesis by blast
  qed
  have total: "\<exists>w'. objectNoLongerValidP handler c a w = Inr w'"
    if "c \<noteq> AtomType \<and> set (allKeywords_' w) \<subseteq> dom (heap w)"
    using that eq objectNoLongerValid_total [of c w vt a] by simp
  from eq frame total show ?thesis by blast
qed

text \<open>
  Invalidating module \<open>M2\<close> erases it from the list keyword and changes nothing else:
  the list of all keywords, the live keywords, and the two other keywords are as before.
\<close>

theorem objectNoLongerValid_keeps_registry_witness:
  "(\<forall>x this (w :: ExampleData World). heap w this = None
       \<or> memberCall (removeReferencesTo exampleClass x) this w
           = w\<lparr>heap := (heap w)(this \<mapsto> removeReferencesTo exampleClass x (the (heap w this)))\<rparr>)
   \<and> (\<forall>x k. removeReferencesTo exampleClass x k
       = k\<lparr>data_' := data_' (removeReferencesTo exampleClass x k)\<rparr>)
   \<and> Module \<noteq> AtomType \<and> set (allKeywords_' exampleWorld) \<subseteq> dom (heap exampleWorld)
   \<and> (\<exists>w'. objectNoLongerValidP (\<lambda>x. memberCall (removeReferencesTo exampleClass x))
              Module 11 exampleWorld = Inr w'
         \<and> allKeywords_' w' = [1, 2, 3] \<and> dom (heap w') = {1, 2, 3}
         \<and> heap w' 1 = Some moduleKeyword
         \<and> heap w' 2 = Some (listKeyword\<lparr>data_' := PointerList [M1]\<rparr>)
         \<and> heap w' 3 = Some flagKeyword)"
proof -
  let ?handler = "\<lambda>x. memberCall (removeReferencesTo exampleClass x)"
  have own: "\<forall>x this w k. heap w this = Some k \<longrightarrow>
      ?handler x this (w :: ExampleData World)
        = w\<lparr>heap := (heap w)(this \<mapsto> removeReferencesTo exampleClass x k)\<rparr>"
    by (simp add: memberCall_def)
  have data: "\<forall>x k. removeReferencesTo exampleClass x k
       = k\<lparr>data_' := data_' (removeReferencesTo exampleClass x k)\<rparr>"
    using example_data_only by (simp add: exampleClass_def)
  have a: "Module \<noteq> AtomType" by simp
  have b: "set (allKeywords_' exampleWorld) \<subseteq> dom (heap exampleWorld)"
    by (simp add: exampleWorld_def)
  note kr = objectNoLongerValid_keeps_registry [OF own data, of Module 11 exampleWorld]
  from kr a b obtain w' where w': "objectNoLongerValidP ?handler Module 11 exampleWorld = Inr w'"
    by blast
  with kr have l: "allKeywords_' w' = allKeywords_' exampleWorld"
    and d: "dom (heap w') = dom (heap exampleWorld)"
    and h: "\<forall>b. heap w' b = map_option (removeReferencesTo exampleClass (Object Module 11)
              ^^ count_list (allKeywords_' exampleWorld) b) (heap exampleWorld b)"
    by blast+
  from l have l': "allKeywords_' w' = [1, 2, 3]" by (simp add: exampleWorld_def)
  from d have d': "dom (heap w') = {1, 2, 3}" by (auto simp: exampleWorld_def)
  from h have "heap w' 1 = Some (removeReferencesTo exampleClass (Object Module 11) moduleKeyword)"
    and "heap w' 2 = Some (removeReferencesTo exampleClass (Object Module 11) listKeyword)"
    and "heap w' 3 = Some (removeReferencesTo exampleClass (Object Module 11) flagKeyword)"
    by (simp_all add: exampleWorld_def)
  then have k1: "heap w' 1 = Some moduleKeyword"
    and k2: "heap w' 2 = Some (listKeyword\<lparr>data_' := PointerList [M1]\<rparr>)"
    and k3: "heap w' 3 = Some flagKeyword"
    by (simp_all add: exampleClass_def example_removeReferencesTo_def moduleKeyword_def
        listKeyword_def flagKeyword_def KeywordBase_def M1_def M2_def)
  have own': "\<forall>x this (w :: ExampleData World). heap w this = None
       \<or> memberCall (removeReferencesTo exampleClass x) this w
           = w\<lparr>heap := (heap w)(this \<mapsto> removeReferencesTo exampleClass x (the (heap w this)))\<rparr>"
    by (auto simp: memberCall_def split: option.splits)
  from own' data a b w' l' d' k1 k2 k3 show ?thesis by blast
qed

text \<open>The three example classes keep the contract of \<open>removeReferencesTo\<close>.\<close>

lemma example_prunes: "x \<notin> example_references (example_removeReferencesTo x k)"
  by (auto simp: example_references_def example_removeReferencesTo_def split: ExampleData.splits)

lemma example_keeps: "x \<in> example_references k \<or> example_removeReferencesTo x k = k"
proof (cases "data_' k")
  case (Flag b)
  then show ?thesis by (simp add: example_removeReferencesTo_def)
next
  case (Pointer p)
  then show ?thesis
    by (cases p) (auto simp: example_references_def example_removeReferencesTo_def)
next
  case (PointerList ps)
  show ?thesis
  proof (cases "x \<in> set ps")
    case True
    with PointerList show ?thesis by (simp add: example_references_def)
  next
    case False
    then have "removeAll x ps = ps" by simp
    with PointerList have "example_removeReferencesTo x k = k\<lparr>data_' := data_' k\<rparr>"
      by (simp add: example_removeReferencesTo_def)
    then show ?thesis by simp
  qed
qed

text \<open>
  C1 (as amended). For every domain class among Configuration, Isotopologue, Module,
  Species, SpeciesSite and ProcedureNode and every object \<open>x\<close> of it,
  \<open>objectNoLongerValid(x)\<close> runs \<open>removeReferencesTo(x)\<close> once on every keyword of the
  list of all keywords. So, for keyword classes whose \<open>removeReferencesTo\<close> does what
  its comment says (it prunes the references to the object it is given, and leaves a
  keyword that holds none as it is), no listed keyword holds a reference to \<open>x\<close>
  afterwards, and a keyword that did not reference \<open>x\<close> is unchanged. What a keyword
  references is its class's business: \<open>references\<close> is any reading of it.
\<close>

theorem objectNoLongerValid_prunes:
  assumes reg: "registry_complete w"
    and cls: "c \<noteq> AtomType"
    and prunes: "\<forall>x k. x \<notin> references (removeReferencesTo vt x k)"
    and keeps: "\<forall>x k. x \<in> references k \<or> removeReferencesTo vt x k = k"
  shows "\<exists>w'. objectNoLongerValid vt c a w = Inr w'
     \<and> (\<forall>kwd \<in> set (allKeywords_' w). \<exists>k.
           heap w kwd = Some k \<and> heap w' kwd = Some (removeReferencesTo vt (Object c a) k))
     \<and> (\<forall>kwd \<in> set (allKeywords_' w'). \<exists>k'.
           heap w' kwd = Some k' \<and> Object c a \<notin> references k')
     \<and> (\<forall>kwd k. heap w kwd = Some k \<and> Object c a \<notin> references k \<longrightarrow> heap w' kwd = Some k)"
proof -
  let ?x = "Object c a"
  let ?h = "\<lambda>b. if b \<in> set (allKeywords_' w)
                 then map_option (removeReferencesTo vt ?x) (heap w b) else heap w b"
  from reg have d: "distinct (allKeywords_' w)" and s: "set (allKeywords_' w) = dom (heap w)"
    by (simp_all add: registry_complete_def)
  from cls have raw: "removeReferencesTo_param c = RawPtr" by (cases c) simp_all
  have "removeReferencesToEach vt ?x (allKeywords_' w) (heap w) = Inr ?h"
    using d s by (intro removeReferencesToEach_result) simp_all
  with raw have run: "objectNoLongerValid vt c a w = Inr (w\<lparr>heap := ?h\<rparr>)"
    by (simp add: objectNoLongerValid_def)
  have one: "\<forall>kwd \<in> set (allKeywords_' w). \<exists>k.
      heap w kwd = Some k \<and> ?h kwd = Some (removeReferencesTo vt ?x k)"
    using s by auto
  have two: "\<forall>kwd \<in> set (allKeywords_' w). \<exists>k'. ?h kwd = Some k' \<and> ?x \<notin> references k'"
    using s prunes by auto
  have three: "\<forall>kwd k. heap w kwd = Some k \<and> ?x \<notin> references k \<longrightarrow> ?h kwd = Some k"
    using keeps by auto
  from run one two three show ?thesis by simp
qed

text \<open>
  The spec's example: invalidating module \<open>M1\<close> clears the Module keyword that held it,
  which then reports its data empty, erases \<open>M1\<close> from the list keyword and leaves the
  scalar keyword alone.
\<close>

theorem objectNoLongerValid_prunes_witness:
  "registry_complete exampleWorld \<and> Module \<noteq> AtomType
   \<and> (\<forall>x k. x \<notin> example_references (removeReferencesTo exampleClass x k))
   \<and> (\<forall>x k. x \<in> example_references k \<or> removeReferencesTo exampleClass x k = k)
   \<and> (\<exists>w'. objectNoLongerValid exampleClass Module 10 exampleWorld = Inr w'
         \<and> heap w' 1 = Some (moduleKeyword\<lparr>data_' := Pointer None\<rparr>)
         \<and> heap w' 2 = Some (listKeyword\<lparr>data_' := PointerList [M2]\<rparr>)
         \<and> heap w' 3 = Some flagKeyword)
   \<and> isDataEmpty exampleClass (moduleKeyword\<lparr>data_' := Pointer None\<rparr>)"
proof -
  have p: "\<forall>x k. x \<notin> example_references (removeReferencesTo exampleClass x k)"
    by (simp add: exampleClass_def example_prunes)
  have q: "\<forall>x k. x \<in> example_references k \<or> removeReferencesTo exampleClass x k = k"
    by (simp add: exampleClass_def example_keeps)
  have c: "Module \<noteq> AtomType" by simp
  note r = registry_complete_exampleWorld
  from objectNoLongerValid_prunes [OF r c p q, of 10]
  obtain w' where w': "objectNoLongerValid exampleClass Module 10 exampleWorld = Inr w'"
    and each: "\<forall>kwd \<in> set (allKeywords_' exampleWorld). \<exists>k. heap exampleWorld kwd = Some k
        \<and> heap w' kwd = Some (removeReferencesTo exampleClass (Object Module 10) k)"
    and unref: "\<forall>kwd k. heap exampleWorld kwd = Some k \<and> Object Module 10 \<notin> example_references k
        \<longrightarrow> heap w' kwd = Some k"
    by blast
  from each have "heap w' 1 = Some (removeReferencesTo exampleClass (Object Module 10) moduleKeyword)"
    and "heap w' 2 = Some (removeReferencesTo exampleClass (Object Module 10) listKeyword)"
    by (auto simp: exampleWorld_def)
  then have k1: "heap w' 1 = Some (moduleKeyword\<lparr>data_' := Pointer None\<rparr>)"
    and k2: "heap w' 2 = Some (listKeyword\<lparr>data_' := PointerList [M2]\<rparr>)"
    by (simp_all add: exampleClass_def example_removeReferencesTo_def moduleKeyword_def
        listKeyword_def KeywordBase_def M1_def M2_def)
  have "heap exampleWorld 3 = Some flagKeyword
      \<and> Object Module 10 \<notin> example_references flagKeyword"
    by (simp add: exampleWorld_def example_references_def flagKeyword_def KeywordBase_def)
  with unref have k3: "heap w' 3 = Some flagKeyword" by blast
  have e: "isDataEmpty exampleClass (moduleKeyword\<lparr>data_' := Pointer None\<rparr>)"
    by (simp add: exampleClass_def example_isDataEmpty_def)
  from r c p q w' k1 k2 k3 e show ?thesis by blast
qed

text \<open>
  The claim as stated includes \<open>AtomType\<close>, and fails there. The overload for atom
  types takes a \<open>std::shared_ptr<AtomType>\<close>, the entry point passes an
  \<open>AtomType *\<close>: the call has no overload to select, nothing runs, and a keyword holding
  the atom type still holds it.
\<close>

theorem objectNoLongerValid_AtomType_counterexample:
  "objectNoLongerValid exampleClass AtomType 30 atomTypeWorld = Inl NoMatchingOverload
   \<and> allKeywords_' atomTypeWorld = [1] \<and> heap atomTypeWorld 1 = Some atomTypeKeyword
   \<and> Object AtomType 30 \<in> example_references atomTypeKeyword"
  by (simp add: objectNoLongerValid_def atomTypeWorld_def atomTypeKeyword_def
      example_references_def KeywordBase_def A1_def)

section \<open>The list of all keywords is the set of live keywords\<close>

lemma construct_complete:
  assumes "registry_complete w" and "construct this t d w = Some w'"
  shows "registry_complete w'"
proof -
  from assms(2) have fresh: "heap w this = None"
    and w': "w' = w\<lparr>allKeywords_' := allKeywords_' w @ [this],
                     heap := (heap w)(this \<mapsto> KeywordBase t d)\<rparr>"
    by (auto simp: construct_def split: option.splits)
  from fresh have "this \<notin> dom (heap w)" by (simp add: domIff)
  with assms(1) w' show ?thesis
    by (auto simp: registry_complete_def)
qed

lemma destroy_complete:
  assumes "registry_complete w" and "destroy this w = Some w'"
  shows "registry_complete w'"
proof -
  from assms(2) have w': "w' = w\<lparr>allKeywords_' := remove1 this (allKeywords_' w),
                     heap := (heap w)(this := None)\<rparr>"
    by (auto simp: destroy_def split: option.splits)
  from assms(1) have d: "distinct (allKeywords_' w)" and s: "set (allKeywords_' w) = dom (heap w)"
    by (simp_all add: registry_complete_def)
  from d have "set (remove1 this (allKeywords_' w)) = set (allKeywords_' w) - {this}"
    by (rule set_remove1_eq)
  with d s w' show ?thesis
    by (simp add: registry_complete_def)
qed

lemma step_complete:
  assumes "registry_complete w" and "step vt e w = Some w'"
  shows "registry_complete w'"
proof (cases e)
  case (Construct this t d)
  with assms show ?thesis by (simp add: construct_complete)
next
  case (Destroy this)
  with assms show ?thesis by (simp add: destroy_complete)
next
  case (ObjectNoLongerValid c object)
  with assms(2) have "objectNoLongerValid vt c object w = Inr w'"
    by (simp split: sum.splits)
  then have "allKeywords_' w' = allKeywords_' w \<and> dom (heap w') = dom (heap w)"
    by (rule objectNoLongerValid_frame)
  with assms(1) show ?thesis by (simp add: registry_complete_def)
next
  case (Member this f)
  with assms(2) obtain k where k: "heap w this = Some k"
    and w': "w' = w\<lparr>heap := (heap w)(this \<mapsto> f k)\<rparr>"
    by (auto split: option.splits)
  from k have "insert this (dom (heap w)) = dom (heap w)" by auto
  with assms(1) w' show ?thesis by (simp add: registry_complete_def)
qed

lemma run_complete:
  "registry_complete w \<Longrightarrow> run vt es w = Some w' \<Longrightarrow> registry_complete w'"
proof (induction es arbitrary: w)
  case Nil
  then show ?case by simp
next
  case (Cons e es)
  from Cons.prems(2) obtain w1 where 1: "step vt e w = Some w1" and 2: "run vt es w1 = Some w'"
    by (auto split: option.splits)
  from Cons.prems(1) 1 have "registry_complete w1" by (rule step_complete)
  then show ?case using 2 by (rule Cons.IH)
qed

lemma run_append:
  "run vt (es @ es') w = (case run vt es w of None \<Rightarrow> None | Some w1 \<Rightarrow> run vt es' w1)"
  by (induction es arbitrary: w) (auto split: option.splits)

lemma registry_complete_startup: "registry_complete startup"
  by (simp add: registry_complete_def startup_def)

text \<open>
  C4. At every point of every run of the process, the entries of the list of all keywords
  are exactly the live keyword objects, each once: constructing a keyword inserts it,
  destroying it removes it, and nothing else changes the list.
\<close>

theorem registry_complete_at_every_point:
  assumes "run vt (es @ es') startup = Some w'"
  shows "\<exists>w. run vt es startup = Some w \<and> registry_complete w"
proof -
  from assms obtain w where w: "run vt es startup = Some w"
    by (auto simp: run_append split: option.splits)
  with registry_complete_startup have "registry_complete w" by (rule run_complete)
  with w show ?thesis by blast
qed

theorem registry_complete_at_every_point_witness:
  "(\<exists>w'. run exampleClass
            ([Construct 1 ModuleData (Pointer None), Construct 2 BoolData (Flag True),
              Construct 3 SpeciesSiteVectorData (PointerList []), Destroy 2]
             @ [ObjectNoLongerValid Module 10, Destroy 1]) startup = Some w')
   \<and> (\<exists>w. run exampleClass
            [Construct 1 ModuleData (Pointer None), Construct 2 BoolData (Flag True),
             Construct 3 SpeciesSiteVectorData (PointerList []), Destroy 2] startup = Some w
         \<and> registry_complete w \<and> allKeywords_' w = [1, 3])"
proof -
  let ?es = "[Construct 1 ModuleData (Pointer None), Construct 2 BoolData (Flag True),
              Construct 3 SpeciesSiteVectorData (PointerList []), Destroy 2]"
  have all: "\<exists>w'. run exampleClass (?es @ [ObjectNoLongerValid Module 10, Destroy 1]) startup = Some w'"
    by (simp add: startup_def construct_def destroy_def objectNoLongerValid_def)
  then obtain w' where "run exampleClass (?es @ [ObjectNoLongerValid Module 10, Destroy 1]) startup = Some w'"
    by blast
  from registry_complete_at_every_point [OF this]
  obtain w where w: "run exampleClass ?es startup = Some w" and c: "registry_complete w"
    by blast
  from w have "allKeywords_' w = [1, 3]"
    by (auto simp: startup_def construct_def destroy_def)
  with all w c show ?thesis by blast
qed

section \<open>Whether a keyword has been set\<close>

text \<open>
  The flag \<open>set_\<close> of a keyword is true exactly when one of the calls it received since
  its construction set it, as long as \<open>read\<close> raises the flag when it returns
  \<open>true\<close> and never lowers it, and pruning leaves it alone.
\<close>

lemma calls_set:
  assumes r: "\<forall>p s c k. set_' (snd (read vt p s c k)) = (set_' k \<or> fst (read vt p s c k))"
    and p: "\<forall>x k. set_' (removeReferencesTo vt x k) = set_' k"
  shows "calls vt cs k0 = (k, b) \<Longrightarrow> set_' k = (set_' k0 \<or> b)"
proof (induction cs arbitrary: k0 k b)
  case Nil
  then show ?case by simp
next
  case (Cons c cs)
  obtain k1 b1 where 1: "call vt c k0 = (k1, b1)" by (cases "call vt c k0")
  obtain k2 b2 where 2: "calls vt cs k1 = (k2, b2)" by (cases "calls vt cs k1")
  from Cons.prems 1 2 have kb: "k = k2" "b = (b1 \<or> b2)" by simp_all
  from 2 have ih: "set_' k2 = (set_' k1 \<or> b2)" by (rule Cons.IH)
  from 1 have "set_' k1 = (set_' k0 \<or> b1)"
    using r p by (cases c) (auto simp: setAsModified_def set'_def)
  with ih kb show ?case by auto
qed

text \<open>The example classes keep that contract.\<close>

lemma example_read_set:
  "set_' (snd (example_read p s c k)) = (set_' k \<or> fst (example_read p s c k))"
  by (simp add: example_read_def split: option.splits)

lemma example_removeReferencesTo_set:
  "set_' (example_removeReferencesTo x k) = set_' k"
  by (simp add: example_removeReferencesTo_def split: ExampleData.splits)

text \<open>
  C6. \<open>hasBeenSet()\<close> is true only if the keyword has been set, by a \<open>read\<close> that
  succeeded or by \<open>setAsModified\<close>, and its data is not empty now. A keyword that was
  set and whose data was emptied later reports \<open>false\<close>.
\<close>

theorem hasBeenSet_set_and_not_empty:
  assumes "\<forall>p s c k. set_' (snd (read vt p s c k)) = (set_' k \<or> fst (read vt p s c k))"
    and "\<forall>x k. set_' (removeReferencesTo vt x k) = set_' k"
    and "calls vt cs (KeywordBase t d) = (k, was_set)"
  shows "set_' k = was_set \<and> hasBeenSet vt k = (was_set \<and> \<not> isDataEmpty vt k)"
proof -
  from calls_set [OF assms] have "set_' k = was_set"
    by (simp add: KeywordBase_def)
  then show ?thesis by (simp add: hasBeenSet_def)
qed

theorem hasBeenSet_set_and_not_empty_witness:
  "(\<forall>p s c k. set_' (snd (read exampleClass p s c k))
        = (set_' k \<or> fst (read exampleClass p s c k)))
   \<and> (\<forall>x k. set_' (removeReferencesTo exampleClass x k) = set_' k)
   \<and> calls exampleClass
        [Set ''Target'' ''Module to target'' ''<Module>'' 0,
         Read [''Target'', ''M1''] 1 [(''M1'', M1), (''M2'', M2)],
         RemoveReferencesTo M1] (KeywordBase ModuleData (Pointer None))
       = (\<lparr>type_' = ModuleData, name_' = ''Target'', arguments_' = ''<Module>'',
            description_' = ''Module to target'', optionMask_' = 0, set_' = True,
            data_' = Pointer None\<rparr>, True)
   \<and> \<not> hasBeenSet exampleClass
        \<lparr>type_' = ModuleData, name_' = ''Target'', arguments_' = ''<Module>'',
         description_' = ''Module to target'', optionMask_' = 0, set_' = True,
         data_' = Pointer None\<rparr>"
proof -
  let ?k = "\<lparr>type_' = ModuleData, name_' = ''Target'', arguments_' = ''<Module>'',
         description_' = ''Module to target'', optionMask_' = 0, set_' = True,
         data_' = Pointer None\<rparr>"
  have r: "\<forall>p s c k. set_' (snd (read exampleClass p s c k))
        = (set_' k \<or> fst (read exampleClass p s c k))"
    by (simp add: exampleClass_def example_read_set)
  have p: "\<forall>x k. set_' (removeReferencesTo exampleClass x k) = set_' k"
    by (simp add: exampleClass_def example_removeReferencesTo_set)
  have c: "calls exampleClass
        [Set ''Target'' ''Module to target'' ''<Module>'' 0,
         Read [''Target'', ''M1''] 1 [(''M1'', M1), (''M2'', M2)],
         RemoveReferencesTo M1] (KeywordBase ModuleData (Pointer None)) = (?k, True)"
    by (simp add: exampleClass_def example_read_def example_parse_def
        example_removeReferencesTo_def set'_def KeywordBase_def M1_def M2_def)
  from hasBeenSet_set_and_not_empty [OF r p c]
  have "hasBeenSet exampleClass ?k = (True \<and> \<not> isDataEmpty exampleClass ?k)" by simp
  then have "\<not> hasBeenSet exampleClass ?k"
    by (simp add: exampleClass_def example_isDataEmpty_def)
  with r p c show ?thesis by blast
qed

end
